theory Spec2Isabelle
  imports Main "HOL-Library.Word"
begin

section \<open>ReceiptScanner.tsx: data model\<close>

text \<open>
  \<^verbatim>\<open>ReceiptData\<close> (lines 21-27): every field is optional. \<open>None\<close> stands for a field
  that is absent (\<^verbatim>\<open>undefined\<close>, or JSON \<^verbatim>\<open>null\<close>, which the code's truthiness tests treat
  alike). This is the declared TypeScript type: \<^verbatim>\<open>items\<close> is a list of strings. What a
  reply decodes to at run time need not have this type and is modelled further below.
  The numeric type of \<^verbatim>\<open>amount\<close> is a parameter: the component only carries the amount
  through.
\<close>

record 'n ReceiptData =
  amount :: "'n option"
  date :: "string option"
  description :: "string option"
  items :: "string list option"
  merchant :: "string option"

section \<open>Extracting the JSON span (lines 128-135)\<close>

text \<open>
  \<^verbatim>\<open>text.match(/\{[\s\S]*\}/)\<close>. The class \<^verbatim>\<open>[\s\S]\<close> matches every character, the star
  is greedy and the pattern has no \<^verbatim>\<open>g\<close> flag, so the result is the match at the
  leftmost start position, and there the longest one.

  \<open>greedyToBrace s\<close> matches \<^verbatim>\<open>[\s\S]*\}\<close> at the head of \<open>s\<close>: the longest prefix of
  \<open>s\<close> that ends in a closing brace (the backtracking star gives characters back from
  the right until a closing brace follows).
\<close>

fun greedyToBrace :: "string \<Rightarrow> string option" where
  "greedyToBrace [] = None"
| "greedyToBrace (c # cs) =
     (case greedyToBrace cs of
        Some m \<Rightarrow> Some (c # m)
      | None \<Rightarrow> if c = CHR ''}'' then Some [c] else None)"

text \<open>\<open>jsonMatch text\<close> is \<^verbatim>\<open>jsonMatch[0]\<close>, or \<open>None\<close> when \<^verbatim>\<open>match\<close> returns null: the
  start positions are tried from left to right.\<close>

fun jsonMatch :: "string \<Rightarrow> string option" where
  "jsonMatch [] = None"
| "jsonMatch (c # cs) =
     (case (if c = CHR ''{'' then greedyToBrace cs else None) of
        Some m \<Rightarrow> Some (c # m)
      | None \<Rightarrow> jsonMatch cs)"

text \<open>The errors that the code throws or that reach its \<^verbatim>\<open>catch\<close> blocks.\<close>

datatype failure =
    ReadError                \<comment> \<open>\<^verbatim>\<open>file.arrayBuffer()\<close> rejects\<close>
  | PdfLoadError             \<comment> \<open>\<^verbatim>\<open>PDFDocument.load\<close> rejects\<close>
  | PdfHasNoPages            \<comment> \<open>\<^verbatim>\<open>new Error("PDF has no pages")\<close>, line 58\<close>
  | PdfSaveError             \<comment> \<open>\<^verbatim>\<open>saveAsBase64\<close> rejects\<close>
  | FailedToProcessPdf       \<comment> \<open>\<^verbatim>\<open>new Error("Failed to process PDF file")\<close>, line 70\<close>
  | ModelCallError           \<comment> \<open>\<^verbatim>\<open>generateContent\<close> or \<^verbatim>\<open>response.text()\<close> fails\<close>
  | NoJsonFound              \<comment> \<open>\<^verbatim>\<open>new Error("Could not extract valid JSON from the response")\<close>\<close>
  | MalformedJson            \<comment> \<open>the \<^verbatim>\<open>SyntaxError\<close> of \<^verbatim>\<open>JSON.parse\<close>\<close>
  | TypeError                \<comment> \<open>\<^verbatim>\<open>items.slice(0, 3).join\<close> is not a function, lines 140-141\<close>
  | CallbackError            \<comment> \<open>the caller's \<^verbatim>\<open>onReceiptData\<close> throws\<close>

text \<open>
  Lines 128-135. \<^verbatim>\<open>JSON.parse\<close> is the platform's decoder and is a parameter: \<open>parse s\<close>
  is \<open>None\<close> when \<^verbatim>\<open>JSON.parse(s)\<close> throws, and the decoded value otherwise.
\<close>

definition parseReply :: "(string \<Rightarrow> 'd option) \<Rightarrow> string \<Rightarrow> failure + 'd" where
  "parseReply parse text =
     (case jsonMatch text of
        None \<Rightarrow> Inl NoJsonFound
      | Some span \<Rightarrow>
          (case parse span of
             None \<Rightarrow> Inl MalformedJson
           | Some receiptData \<Rightarrow> Inr receiptData))"

text \<open>
  The span in the words of the specification: from the first opening brace of the text
  to the last closing brace of the text, when the latter comes after the former.
\<close>

definition maximalSpan :: "string \<Rightarrow> string option" where
  "maximalSpan text =
     (let fromFirstOpen = dropWhile (\<lambda>c. c \<noteq> CHR ''{'') text;
          toLastClose = rev (dropWhile (\<lambda>c. c \<noteq> CHR ''}'') (rev fromFirstOpen))
      in if toLastClose = [] then None else Some toLastClose)"

section \<open>Deriving the description (lines 137-145)\<close>

text \<open>The derivation on a record of the declared type.\<close>

text \<open>\<^verbatim>\<open>Array.prototype.join\<close> on strings.\<close>

fun join :: "string \<Rightarrow> string list \<Rightarrow> string" where
  "join sep [] = []"
| "join sep [x] = x"
| "join sep (x # y # ys) = x @ sep @ join sep (y # ys)"

text \<open>JavaScript truthiness of an optional string: absent and \<^verbatim>\<open>""\<close> are falsy.\<close>

fun truthy :: "string option \<Rightarrow> bool" where
  "truthy None = False"
| "truthy (Some s) = (s \<noteq> [])"

definition deriveDescription :: "'n ReceiptData \<Rightarrow> 'n ReceiptData" where
  "deriveDescription receiptData =
     (if items receiptData \<noteq> None \<and> length (the (items receiptData)) > 0 then
        receiptData\<lparr>description :=
          Some (join '', '' (take 3 (the (items receiptData))) @
                (if length (the (items receiptData)) > 3 then ''...'' else ''''))\<rparr>
      else if truthy (merchant receiptData) then
        receiptData\<lparr>description := merchant receiptData\<rparr>
      else receiptData)"

section \<open>The decoded reply at run time (lines 135-145)\<close>

text \<open>
  The cast \<^verbatim>\<open>as ReceiptData\<close> of line 135 is not checked. What \<^verbatim>\<open>JSON.parse\<close> returns for a
  span that starts with an opening brace is an object whose properties hold arbitrary
  JSON values, and lines 138-145 run on that object. An object is the list of its own
  properties, each key once, in creation order.
\<close>

datatype 'n json =
    JNull
  | JBool bool
  | JNumber 'n
  | JString string
  | JArray "'n json list"
  | JObject "(string \<times> 'n json) list"

type_synonym 'n jsObject = "(string \<times> 'n json) list"

text \<open>Reading a property (\<open>None\<close> is \<^verbatim>\<open>undefined\<close>) and assigning one.\<close>

definition getProp :: "'n jsObject \<Rightarrow> string \<Rightarrow> 'n json option" where
  "getProp obj key = map_of obj key"

fun setProp :: "'n jsObject \<Rightarrow> string \<Rightarrow> 'n json \<Rightarrow> 'n jsObject" where
  "setProp [] key v = [(key, v)]"
| "setProp ((k, x) # props) key v =
     (if k = key then (k, v) # props else (k, x) # setProp props key v)"

text \<open>
  Truthiness of what a property readNum gives: \<^verbatim>\<open>undefined\<close>, \<^verbatim>\<open>null\<close>, \<^verbatim>\<open>false\<close>, zero and the
  empty string are falsy, everything else (every array and object too) is truthy.
\<close>

fun truthyJs :: "('n::zero) json option \<Rightarrow> bool" where
  "truthyJs None = False"
| "truthyJs (Some JNull) = False"
| "truthyJs (Some (JBool b)) = b"
| "truthyJs (Some (JNumber n)) = (n \<noteq> 0)"
| "truthyJs (Some (JString s)) = (s \<noteq> [])"
| "truthyJs (Some (JArray xs)) = True"
| "truthyJs (Some (JObject props)) = True"

text \<open>
  \<^verbatim>\<open>ToString\<close> of a decoded value, and the text \<^verbatim>\<open>Array.prototype.join\<close> uses for an element
  (empty for \<^verbatim>\<open>null\<close>). How the platform prints a number is the parameter \<open>printNum\<close>.
\<close>

fun toStringJs :: "('n \<Rightarrow> string) \<Rightarrow> 'n json \<Rightarrow> string" where
  "toStringJs printNum JNull = ''null''"
| "toStringJs printNum (JBool b) = (if b then ''true'' else ''false'')"
| "toStringJs printNum (JNumber n) = printNum n"
| "toStringJs printNum (JString s) = s"
| "toStringJs printNum (JArray xs) =
     join '','' (map (\<lambda>x. if x = JNull then [] else toStringJs printNum x) xs)"
| "toStringJs printNum (JObject props) = ''[object Object]''"

definition elementString :: "('n \<Rightarrow> string) \<Rightarrow> 'n json \<Rightarrow> string" where
  "elementString printNum x = (if x = JNull then [] else toStringJs printNum x)"

text \<open>
  \<^verbatim>\<open>ToNumber\<close> of a decoded value, \<open>None\<close> for \<^verbatim>\<open>NaN\<close>. How the platform reads a string as a
  number is the parameter \<open>readNum\<close>.
\<close>

fun toNumberJs ::
  "('n \<Rightarrow> string) \<Rightarrow> (string \<Rightarrow> 'n option) \<Rightarrow> ('n::{zero,one}) json \<Rightarrow> 'n option" where
  "toNumberJs printNum readNum JNull = Some 0"
| "toNumberJs printNum readNum (JBool b) = Some (if b then 1 else 0)"
| "toNumberJs printNum readNum (JNumber n) = Some n"
| "toNumberJs printNum readNum (JString s) = readNum s"
| "toNumberJs printNum readNum (JArray xs) = readNum (toStringJs printNum (JArray xs))"
| "toNumberJs printNum readNum (JObject props) = None"

text \<open>
  \<^verbatim>\<open>items.length > 0\<close> for a truthy \<^verbatim>\<open>items\<close>. A string and an array have a length; a number
  and a boolean have none, and \<^verbatim>\<open>undefined > 0\<close> is false; an object has the length that
  its own property \<^verbatim>\<open>length\<close> holds, compared as a number.
\<close>

fun lengthPositive ::
  "('n \<Rightarrow> string) \<Rightarrow> (string \<Rightarrow> 'n option) \<Rightarrow> ('n::{zero,one,ord}) json \<Rightarrow> bool" where
  "lengthPositive printNum readNum (JString s) = (0 < length s)"
| "lengthPositive printNum readNum (JArray xs) = (0 < length xs)"
| "lengthPositive printNum readNum (JObject props) =
     (case map_of props ''length'' of
        None \<Rightarrow> False
      | Some l \<Rightarrow> (case toNumberJs printNum readNum l of None \<Rightarrow> False | Some n \<Rightarrow> 0 < n))"
| "lengthPositive printNum readNum _ = False"

text \<open>
  Lines 138-145 on the decoded object. With a truthy \<^verbatim>\<open>items\<close> of positive length,
  \<^verbatim>\<open>items.slice(0, 3).join(", ")\<close> is evaluated: an array has both methods; a string has
  \<^verbatim>\<open>slice\<close> but no \<^verbatim>\<open>join\<close>, and an object has neither as a function, so for these the
  statement throws a \<^verbatim>\<open>TypeError\<close> before anything is assigned.
\<close>

definition assignDescription ::
  "('n \<Rightarrow> string) \<Rightarrow> (string \<Rightarrow> 'n option) \<Rightarrow> ('n::{zero,one,ord}) jsObject
     \<Rightarrow> failure + 'n jsObject" where
  "assignDescription printNum readNum receiptData =
     (if truthyJs (getProp receiptData ''items'') \<and>
         lengthPositive printNum readNum (the (getProp receiptData ''items'')) then
        (case the (getProp receiptData ''items'') of
           JArray xs \<Rightarrow>
             Inr (setProp receiptData ''description''
                    (JString (join '', '' (map (elementString printNum) (take 3 xs)) @
                              (if length xs > 3 then ''...'' else ''''))))
         | _ \<Rightarrow> Inl TypeError)
      else if truthyJs (getProp receiptData ''merchant'') then
        Inr (setProp receiptData ''description'' (the (getProp receiptData ''merchant'')))
      else Inr receiptData)"

text \<open>
  The decoded object seen at the declared type \<^verbatim>\<open>ReceiptData\<close>, when it has that type: each
  of the five properties is absent or \<^verbatim>\<open>null\<close>, or holds a value of the declared kind.
\<close>

fun asNumber :: "'n json \<Rightarrow> 'n option" where
  "asNumber (JNumber n) = Some n"
| "asNumber _ = None"

fun asString :: "'n json \<Rightarrow> string option" where
  "asString (JString s) = Some s"
| "asString _ = None"

fun asStrings :: "'n json list \<Rightarrow> string list option" where
  "asStrings [] = Some []"
| "asStrings (JString s # xs) = (case asStrings xs of None \<Rightarrow> None | Some ss \<Rightarrow> Some (s # ss))"
| "asStrings (_ # xs) = None"

fun asStringArray :: "'n json \<Rightarrow> string list option" where
  "asStringArray (JArray xs) = asStrings xs"
| "asStringArray _ = None"

fun optional :: "('n json \<Rightarrow> 'a option) \<Rightarrow> 'n json option \<Rightarrow> 'a option option" where
  "optional conv None = Some None"
| "optional conv (Some JNull) = Some None"
| "optional conv (Some v) = (case conv v of None \<Rightarrow> None | Some x \<Rightarrow> Some (Some x))"

definition typedView :: "'n jsObject \<Rightarrow> 'n ReceiptData option" where
  "typedView obj =
     (case (optional asNumber (getProp obj ''amount''),
            optional asString (getProp obj ''date''),
            optional asString (getProp obj ''description''),
            optional asStringArray (getProp obj ''items''),
            optional asString (getProp obj ''merchant'')) of
        (Some a, Some d, Some ds, Some its, Some m) \<Rightarrow>
          Some \<lparr>amount = a, date = d, description = ds, items = its, merchant = m\<rparr>
      | _ \<Rightarrow> None)"

section \<open>Encoding a file (lines 48-92)\<close>

type_synonym byte = "8 word"

text \<open>
  A \<^verbatim>\<open>File\<close> as the component sees it: its declared MIME type (\<^verbatim>\<open>file.type\<close>), its bytes,
  and whether the platform manages to read them.
\<close>

record File =
  ftype :: string
  content :: "byte list"
  readable :: bool

text \<open>
  Base64 (RFC 4648, with padding) is what \<^verbatim>\<open>FileReader.readAsDataURL\<close> and pdf-lib's
  \<^verbatim>\<open>saveAsBase64\<close> put after the comma of a data URL. Both are platform or library
  functions; the model follows the standard, three bytes to four characters.
\<close>

definition b64chars :: string where
  "b64chars = ''ABCDEFGHIJKLMNOPQRSTUVWXYZabcdefghijklmnopqrstuvwxyz0123456789+/''"

definition b64char :: "nat \<Rightarrow> char" where
  "b64char n = b64chars ! n"

fun base64 :: "byte list \<Rightarrow> string" where
  "base64 [] = []"
| "base64 [a] =
     [b64char (unat a div 4), b64char ((unat a mod 4) * 16), CHR ''='', CHR ''='']"
| "base64 [a, b] =
     [b64char (unat a div 4), b64char ((unat a mod 4) * 16 + unat b div 16),
      b64char ((unat b mod 16) * 4), CHR ''='']"
| "base64 (a # b # c # rest) =
     [b64char (unat a div 4), b64char ((unat a mod 4) * 16 + unat b div 16),
      b64char ((unat b mod 16) * 4 + unat c div 64), b64char (unat c mod 64)] @ base64 rest"

text \<open>The standard decoder, against which the round trip is stated.\<close>

definition b64index :: "char \<Rightarrow> nat" where
  "b64index c = length (takeWhile (\<lambda>d. d \<noteq> c) b64chars)"

fun base64Decode :: "string \<Rightarrow> byte list" where
  "base64Decode (p # q # r # s # rest) =
     (if r = CHR ''='' then
        [of_nat (b64index p * 4 + b64index q div 16)]
      else if s = CHR ''='' then
        [of_nat (b64index p * 4 + b64index q div 16),
         of_nat ((b64index q mod 16) * 16 + b64index r div 4)]
      else
        [of_nat (b64index p * 4 + b64index q div 16),
         of_nat ((b64index q mod 16) * 16 + b64index r div 4),
         of_nat ((b64index r mod 4) * 64 + b64index s)] @ base64Decode rest)"
| "base64Decode _ = []"

text \<open>
  \<^verbatim>\<open>reader.readAsDataURL(file)\<close> for a file that can be read: the data URL of RFC 2397,
  with the platform's default media type when the file declares none.
\<close>

definition readAsDataURL :: "File \<Rightarrow> string" where
  "readAsDataURL file =
     ''data:'' @ (if ftype file = [] then ''application/octet-stream'' else ftype file) @
     '';base64,'' @ base64 (content file)"

text \<open>\<^verbatim>\<open>String.prototype.split\<close> with a one-character separator.\<close>

fun splitOn :: "char \<Rightarrow> string \<Rightarrow> string list" where
  "splitOn sep [] = [[]]"
| "splitOn sep (c # cs) =
     (if c = sep then [] # splitOn sep cs
      else (case splitOn sep cs of
              [] \<Rightarrow> [[c]]
            | piece # pieces \<Rightarrow> (c # piece) # pieces))"

text \<open>Indexing a JavaScript array: \<^verbatim>\<open>undefined\<close> out of range.\<close>

definition at :: "'a list \<Rightarrow> nat \<Rightarrow> 'a option" where
  "at xs i = (if i < length xs then Some (xs ! i) else None)"

text \<open>The object \<^verbatim>\<open>inlineData\<close> that \<^verbatim>\<open>fileToGenerativePart\<close> returns.\<close>

record InlineData =
  data :: "string option"
  mimeType :: string

text \<open>
  pdf-lib as the code uses it: \<open>pageCount\<close> is \<^verbatim>\<open>getPageCount()\<close>, \<open>saved\<close> the bytes that
  \<^verbatim>\<open>save\<close> serialises the loaded document to (\<open>None\<close> when saving rejects), so that
  \<^verbatim>\<open>saveAsBase64({ dataUri: true })\<close> is the data URL of these bytes.
\<close>

record PdfDoc =
  pageCount :: nat
  saved :: "byte list option"

text \<open>What awaiting the external model gives: a reply text, a rejection, or nothing ever.\<close>

datatype genOutcome = GenReply string | GenRejects | GenPending

text \<open>The collaborators outside the component.\<close>

record 'n Env =
  pdfLoad :: "byte list \<Rightarrow> PdfDoc option"              \<comment> \<open>\<^verbatim>\<open>PDFDocument.load\<close>, \<open>None\<close> when it rejects\<close>
  generateContent :: "string \<Rightarrow> InlineData \<Rightarrow> genOutcome" \<comment> \<open>the model call and \<^verbatim>\<open>response.text()\<close>\<close>
  jsonParse :: "string \<Rightarrow> 'n jsObject option"          \<comment> \<open>\<^verbatim>\<open>JSON.parse\<close>, \<open>None\<close> when it throws\<close>
  numberToString :: "'n \<Rightarrow> string"                     \<comment> \<open>how the platform prints a number\<close>
  stringToNumber :: "string \<Rightarrow> 'n option"              \<comment> \<open>how it reads one, \<open>None\<close> for \<^verbatim>\<open>NaN\<close>\<close>
  callbackThrows :: "'n jsObject \<Rightarrow> bool"               \<comment> \<open>whether the caller's callback throws\<close>

section \<open>Session state and effects (lines 33-36)\<close>

text \<open>
  Everything the component does to the outside, in the order it does it. Object URLs are
  numbered in the order \<^verbatim>\<open>URL.createObjectURL\<close> hands them out.
\<close>

datatype 'n effect =
    SetIsLoading bool
  | SetError "string option"
  | SetPreviewUrl "nat option"
  | SetFileType "string option"
  | CreateObjectURL nat
  | RevokeObjectURL nat
  | ConsoleError failure
  | GenerateContent string InlineData
  | OnReceiptData "'n jsObject"

text \<open>The four \<^verbatim>\<open>useState\<close> cells, the next fresh object URL and the effects so far.\<close>

record 'n World =
  isLoading :: bool
  error :: "string option"
  previewUrl :: "nat option"
  fileType :: "string option"
  nextUrl :: nat
  effects :: "'n effect list"

definition initial :: "'n World" where
  "initial = \<lparr>isLoading = False, error = None, previewUrl = None, fileType = None,
              nextUrl = 0, effects = []\<rparr>"

definition setIsLoading :: "bool \<Rightarrow> 'n World \<Rightarrow> 'n World" where
  "setIsLoading b w = w\<lparr>isLoading := b, effects := effects w @ [SetIsLoading b]\<rparr>"

definition setError :: "string option \<Rightarrow> 'n World \<Rightarrow> 'n World" where
  "setError e w = w\<lparr>error := e, effects := effects w @ [SetError e]\<rparr>"

definition setPreviewUrl :: "nat option \<Rightarrow> 'n World \<Rightarrow> 'n World" where
  "setPreviewUrl u w = w\<lparr>previewUrl := u, effects := effects w @ [SetPreviewUrl u]\<rparr>"

definition setFileType :: "string option \<Rightarrow> 'n World \<Rightarrow> 'n World" where
  "setFileType t w = w\<lparr>fileType := t, effects := effects w @ [SetFileType t]\<rparr>"

definition createObjectURL :: "'n World \<Rightarrow> nat \<times> 'n World" where
  "createObjectURL w =
     (nextUrl w, w\<lparr>nextUrl := Suc (nextUrl w), effects := effects w @ [CreateObjectURL (nextUrl w)]\<rparr>)"

definition revokeObjectURL :: "nat \<Rightarrow> 'n World \<Rightarrow> 'n World" where
  "revokeObjectURL u w = w\<lparr>effects := effects w @ [RevokeObjectURL u]\<rparr>"

definition consoleError :: "failure \<Rightarrow> 'n World \<Rightarrow> 'n World" where
  "consoleError e w = w\<lparr>effects := effects w @ [ConsoleError e]\<rparr>"

definition emit :: "'n effect \<Rightarrow> 'n World \<Rightarrow> 'n World" where
  "emit x w = w\<lparr>effects := effects w @ [x]\<rparr>"

text \<open>The effects a run added: those of \<open>w'\<close> after those of \<open>w\<close>.\<close>

definition effectsSince :: "'n World \<Rightarrow> 'n World \<Rightarrow> 'n effect list" where
  "effectsSince w w' = drop (length (effects w)) (effects w')"

fun createdUrls :: "'n effect list \<Rightarrow> nat list" where
  "createdUrls [] = []"
| "createdUrls (CreateObjectURL u # es) = u # createdUrls es"
| "createdUrls (_ # es) = createdUrls es"

fun revokedUrls :: "'n effect list \<Rightarrow> nat list" where
  "revokedUrls [] = []"
| "revokedUrls (RevokeObjectURL u # es) = u # revokedUrls es"
| "revokedUrls (_ # es) = revokedUrls es"


fun modelCalls :: "'n effect list \<Rightarrow> nat" where
  "modelCalls [] = 0"
| "modelCalls (GenerateContent _ _ # es) = Suc (modelCalls es)"
| "modelCalls (_ # es) = modelCalls es"


text \<open>Object URLs that were handed out and not revoked.\<close>

definition unreleased :: "'n World \<Rightarrow> nat list" where
  "unreleased w =
     filter (\<lambda>u. count_list (revokedUrls (effects w)) u = 0) (createdUrls (effects w))"

section \<open>The component's functions\<close>

text \<open>What awaiting an asynchronous step gives.\<close>

datatype 'a outcome = Returns 'a | Throws failure | Hangs

text \<open>A finished run with its state, or one that never finishes with the state reached.\<close>

datatype 'a run = Returned 'a | Pending 'a

text \<open>\<^verbatim>\<open>clearPreview\<close>, lines 39-46. An object URL is a non-empty string, hence truthy.\<close>

definition clearPreview :: "'n World \<Rightarrow> 'n World" where
  "clearPreview w =
     (case previewUrl w of
        Some url \<Rightarrow> setError None (setFileType None (setPreviewUrl None (revokeObjectURL url w)))
      | None \<Rightarrow> w)"

text \<open>The body of the \<^verbatim>\<open>try\<close> of the PDF branch, lines 53-63.\<close>

definition pdfToBase64 :: "'n Env \<Rightarrow> File \<Rightarrow> failure + string option" where
  "pdfToBase64 env file =
     (if \<not> readable file then Inl ReadError
      else case pdfLoad env (content file) of
        None \<Rightarrow> Inl PdfLoadError
      | Some pdfDoc \<Rightarrow>
          if pageCount pdfDoc = 0 then Inl PdfHasNoPages
          else case saved pdfDoc of
            None \<Rightarrow> Inl PdfSaveError
          | Some bytes \<Rightarrow>
              Inr (at (splitOn CHR '','' (''data:application/pdf;base64,'' @ base64 bytes)) 1))"

text \<open>
  \<^verbatim>\<open>fileToGenerativePart\<close>, lines 49-92. In the PDF branch the \<^verbatim>\<open>catch\<close> logs whatever the
  \<^verbatim>\<open>try\<close> threw and throws \<^verbatim>\<open>"Failed to process PDF file"\<close>. In the image branch the
  promise is resolved only inside \<^verbatim>\<open>onloadend\<close>; when the read failed, \<^verbatim>\<open>reader.result\<close> is
  null, \<^verbatim>\<open>split\<close> throws inside the handler and the promise is never settled.
\<close>

definition fileToGenerativePart ::
  "'n Env \<Rightarrow> File \<Rightarrow> 'n World \<Rightarrow> InlineData outcome \<times> 'n World" where
  "fileToGenerativePart env file w =
     (if ftype file = ''application/pdf'' then
        (case pdfToBase64 env file of
           Inr base64Data \<Rightarrow>
             (Returns \<lparr>data = base64Data, mimeType = ''application/pdf''\<rparr>, w)
         | Inl e \<Rightarrow> (Throws FailedToProcessPdf, consoleError e w))
      else if readable file then
        (Returns \<lparr>data = at (splitOn CHR '','' (readAsDataURL file)) 1,
                  mimeType = ftype file\<rparr>, w)
      else (Hangs, w))"

definition prompt :: string where
  "prompt =
     ''Analyze this receipt image and extract the following information in JSON format:'' @
     [CHR 0x0A] @ ''      - total amount (as a number without currency symbol)'' @
     [CHR 0x0A] @ ''      - date (in YYYY-MM-DD format)'' @
     [CHR 0x0A] @ ''      - merchant/store name'' @
     [CHR 0x0A] @ ''      - list of purchased items'' @
     [CHR 0x0A] @ ''      '' @
     [CHR 0x0A] @ ''      Return ONLY a valid JSON object with these fields: amount, date, merchant, items (as an array of strings). '' @
     [CHR 0x0A] @ ''      If you can'' @ [CHR 0x27] @ ''t determine a value, omit that field from the JSON.''"

definition msgApiKey :: string where
  "msgApiKey = ''API key is not configured. Please add a Gemini API key.''"

definition msgFailed :: string where
  "msgFailed = ''Failed to process receipt. Please try again or enter details manually.''"

definition msgUnsupported :: string where
  "msgUnsupported = ''Please upload an image or PDF file''"

text \<open>
  The body of the \<^verbatim>\<open>try\<close> of \<^verbatim>\<open>processReceipt\<close>, lines 103-148. \<^verbatim>\<open>receiptData\<close> is mutated
  in place, so the callback receives the decoded object with its description assigned.
\<close>

definition extraction ::
  "('n::{zero,one,ord}) Env \<Rightarrow> File \<Rightarrow> 'n World \<Rightarrow> unit outcome \<times> 'n World" where
  "extraction env file w =
     (let w1 = setError None (setIsLoading True w) in
      case fileToGenerativePart env file w1 of
        (Hangs, w2) \<Rightarrow> (Hangs, w2)
      | (Throws e, w2) \<Rightarrow> (Throws e, w2)
      | (Returns imagePart, w2) \<Rightarrow>
          (let w3 = emit (GenerateContent prompt imagePart) w2 in
           case generateContent env prompt imagePart of
             GenPending \<Rightarrow> (Hangs, w3)
           | GenRejects \<Rightarrow> (Throws ModelCallError, w3)
           | GenReply text \<Rightarrow>
               (case parseReply (jsonParse env) text of
                  Inl e \<Rightarrow> (Throws e, w3)
                | Inr receiptData \<Rightarrow>
                    (case assignDescription (numberToString env) (stringToNumber env)
                            receiptData of
                       Inl e \<Rightarrow> (Throws e, w3)
                     | Inr described \<Rightarrow>
                         (let w4 = emit (OnReceiptData described) w3 in
                          if callbackThrows env described
                          then (Throws CallbackError, w4)
                          else (Returns (), w4))))))"

text \<open>
  \<^verbatim>\<open>processReceipt\<close>, lines 95-157: the guard on the API key, then \<^verbatim>\<open>try\<close>, \<^verbatim>\<open>catch\<close> and
  \<^verbatim>\<open>finally\<close>. The \<^verbatim>\<open>catch\<close> swallows every error, so the function never throws.
\<close>

definition processReceipt ::
  "('n::{zero,one,ord}) Env \<Rightarrow> string option \<Rightarrow> File \<Rightarrow> 'n World \<Rightarrow> 'n World run" where
  "processReceipt env apiKey file w =
     (if \<not> truthy apiKey then
        Returned (setIsLoading False (setError (Some msgApiKey) w))
      else case extraction env file w of
        (Hangs, w') \<Rightarrow> Pending w'
      | (Returns _, w') \<Rightarrow> Returned (setIsLoading False w')
      | (Throws e, w') \<Rightarrow>
          Returned (setIsLoading False (setError (Some msgFailed) (consoleError e w'))))"

text \<open>\<^verbatim>\<open>String.prototype.startsWith\<close>.\<close>

definition startsWith :: "string \<Rightarrow> string \<Rightarrow> bool" where
  "startsWith s p = (take (length p) s = p)"

text \<open>
  \<^verbatim>\<open>onDrop\<close>, lines 160-190. The result carries what the \<^verbatim>\<open>async\<close> function resolves to:
  \<open>None\<close> for \<^verbatim>\<open>undefined\<close>, \<open>Some url\<close> for the closure of line 187 that would revoke
  \<open>url\<close> if something called it. The \<^verbatim>\<open>catch\<close> of lines 179-184 is never entered, since
  \<^verbatim>\<open>processReceipt\<close> does not throw.
\<close>

definition onDrop ::
  "('n::{zero,one,ord}) Env \<Rightarrow> string option \<Rightarrow> File list \<Rightarrow> 'n World
     \<Rightarrow> (nat option \<times> 'n World) run" where
  "onDrop env apiKey acceptedFiles w =
     (case acceptedFiles of
        [] \<Rightarrow> Returned (None, w)
      | file # _ \<Rightarrow>
          if \<not> startsWith (ftype file) ''image/'' \<and> ftype file \<noteq> ''application/pdf'' then
            Returned (None, setError (Some msgUnsupported) w)
          else
            (case createObjectURL w of
               (objectUrl, w1) \<Rightarrow>
                 (case processReceipt env apiKey file
                         (setFileType (Some (ftype file)) (setPreviewUrl (Some objectUrl) w1)) of
                    Pending w2 \<Rightarrow> Pending (None, w2)
                  | Returned w2 \<Rightarrow> Returned (Some objectUrl, w2))))"

section \<open>The widget's events (lines 192-272)\<close>

text \<open>
  The drop zone calls \<^verbatim>\<open>onDrop\<close> with the files it accepted and does nothing with what the
  handler resolves to. The remove button is rendered, and so can be clicked, only while
  the widget is not loading and shows a preview (lines 213-230).
\<close>

datatype event = Drop "File list" | ClickRemove

fun handle ::
  "('n::{zero,one,ord}) Env \<Rightarrow> string option \<Rightarrow> 'n World \<Rightarrow> event \<Rightarrow> 'n World" where
  "handle env apiKey w (Drop acceptedFiles) =
     (case onDrop env apiKey acceptedFiles w of
        Returned (_, w') \<Rightarrow> w'
      | Pending (_, w') \<Rightarrow> w')"
| "handle env apiKey w ClickRemove =
     (if \<not> isLoading w \<and> previewUrl w \<noteq> None then clearPreview w else w)"

definition session ::
  "('n::{zero,one,ord}) Env \<Rightarrow> string option \<Rightarrow> event list \<Rightarrow> 'n World" where
  "session env apiKey events = foldl (handle env apiKey) initial events"

fun stateOf :: "'a run \<Rightarrow> 'a" where
  "stateOf (Returned x) = x"
| "stateOf (Pending x) = x"

section \<open>Test doubles and the specification's list of types\<close>

text \<open>
  The MIME types that the specification lists as accepted, in its words; the code tests
  \<^verbatim>\<open>startsWith("image/")\<close> and \<^verbatim>\<open>=== "application/pdf"\<close> instead (line 165).
\<close>

definition listedTypes :: "string list" where
  "listedTypes = [''image/jpeg'', ''image/jpg'', ''image/png'', ''image/heic'', ''image/heif'',
                  ''application/pdf'']"

text \<open>
  Collaborators for the concrete runs below: a PDF library that loads every buffer as a
  document with one page per byte, a model that always answers with a JSON object
  wrapped in prose, a decoder that knows this one object, and a callback that returns.
\<close>

definition mockReply :: string where
  "mockReply = ''Here is the receipt: {milk, eggs, bread, soap} Anything else?''"


definition mockObject :: "nat jsObject" where
  "mockObject = [(''amount'', JNumber 42), (''date'', JString ''2024-03-01''),
                 (''items'', JArray [JString ''milk'', JString ''eggs'', JString ''bread'',
                                    JString ''soap'']),
                 (''merchant'', JString ''Acme'')]"

definition mockEnv :: "nat Env" where
  "mockEnv = \<lparr>pdfLoad = (\<lambda>bytes. Some \<lparr>pageCount = length bytes, saved = Some bytes\<rparr>),
              generateContent = (\<lambda>instruction part. GenReply mockReply),
              jsonParse = (\<lambda>span. if span = ''{milk, eggs, bread, soap}'' then Some mockObject
                                    else None),
              numberToString = (\<lambda>n. ''0''),
              stringToNumber = (\<lambda>s. None),
              callbackThrows = (\<lambda>receiptData. False)\<rparr>"



definition pngFile :: File where
  "pngFile = \<lparr>ftype = ''image/png'', content = [0x89, 0x50, 0x4E, 0x47], readable = True\<rparr>"

definition gifFile :: File where
  "gifFile = \<lparr>ftype = ''image/gif'', content = [0x47, 0x49, 0x46], readable = True\<rparr>"

definition untypedFile :: File where
  "untypedFile = \<lparr>ftype = [], content = [0x00, 0x01], readable = True\<rparr>"

definition emptyPdf :: File where
  "emptyPdf = \<lparr>ftype = ''application/pdf'', content = [], readable = True\<rparr>"

section \<open>Auxiliary facts\<close>

subsection \<open>The regular expression\<close>

lemma greedyToBrace_eq:
  "greedyToBrace s =
     (let m = rev (dropWhile (\<lambda>c. c \<noteq> CHR ''}'') (rev s)) in if m = [] then None else Some m)"
proof (induction s)
  case Nil
  show ?case by simp
next
  case (Cons c cs)
  show ?case
  proof (cases "\<forall>x \<in> set cs. x \<noteq> CHR ''}''")
    case True
    then have "dropWhile (\<lambda>c. c \<noteq> CHR ''}'') (rev cs) = []" by simp
    moreover from True
    have "dropWhile (\<lambda>c. c \<noteq> CHR ''}'') (rev cs @ [c]) = dropWhile (\<lambda>c. c \<noteq> CHR ''}'') [c]"
      by (intro dropWhile_append2) simp
    ultimately show ?thesis using Cons.IH by (simp add: Let_def)
  next
    case False
    then obtain x where x: "x \<in> set (rev cs)" "\<not> x \<noteq> CHR ''}''" by auto
    have "dropWhile (\<lambda>c. c \<noteq> CHR ''}'') (rev cs @ [c]) =
          dropWhile (\<lambda>c. c \<noteq> CHR ''}'') (rev cs) @ [c]"
      using x by (rule dropWhile_append1)
    moreover have "dropWhile (\<lambda>c. c \<noteq> CHR ''}'') (rev cs) \<noteq> []"
      using x by (auto simp: dropWhile_eq_Nil_conv)
    ultimately show ?thesis using Cons.IH by (simp add: Let_def)
  qed
qed

lemma jsonMatch_eq_maximalSpan: "jsonMatch reply = maximalSpan reply"
proof (induction reply)
  case Nil
  show ?case by (simp add: maximalSpan_def)
next
  case (Cons c cs)
  show ?case
  proof (cases "c = CHR ''{''")
    case False
    then show ?thesis using Cons.IH by (simp add: maximalSpan_def)
  next
    case True
    note open_brace = this
    show ?thesis
    proof (cases "greedyToBrace cs")
      case (Some m)
      then have m: "rev (dropWhile (\<lambda>c. c \<noteq> CHR ''}'') (rev cs)) = m" "m \<noteq> []"
        by (auto simp: greedyToBrace_eq Let_def split: if_splits)
      then have ne: "dropWhile (\<lambda>c. c \<noteq> CHR ''}'') (rev cs) \<noteq> []" by auto
      then obtain x where x: "x \<in> set (rev cs)" "\<not> x \<noteq> CHR ''}''"
        by (auto simp: dropWhile_eq_Nil_conv)
      have "dropWhile (\<lambda>c. c \<noteq> CHR ''}'') (rev cs @ [c]) =
            dropWhile (\<lambda>c. c \<noteq> CHR ''}'') (rev cs) @ [c]"
        using x by (rule dropWhile_append1)
      moreover have "CHR ''}'' \<in> set cs" using x by auto
      ultimately show ?thesis using Some m open_brace by (simp add: maximalSpan_def)
    next
      case None
      then have nil: "dropWhile (\<lambda>c. c \<noteq> CHR ''}'') (rev cs) = []"
        by (auto simp: greedyToBrace_eq Let_def split: if_splits)
      then have all: "\<forall>x \<in> set (rev cs). x \<noteq> CHR ''}''"
        by (simp add: dropWhile_eq_Nil_conv)
      then have "dropWhile (\<lambda>c. c \<noteq> CHR ''}'') (rev cs @ [c]) =
                 dropWhile (\<lambda>c. c \<noteq> CHR ''}'') [c]"
        by (intro dropWhile_append2) simp
      then have span: "maximalSpan (c # cs) = None"
        using open_brace by (simp add: maximalSpan_def)
      have "jsonMatch cs = None"
      proof (cases "jsonMatch cs")
        case None
        then show ?thesis .
      next
        case (Some m')
        then have "maximalSpan cs = Some m'" using Cons.IH by simp
        then have "rev (dropWhile (\<lambda>c. c \<noteq> CHR ''}'')
                     (rev (dropWhile (\<lambda>c. c \<noteq> CHR ''{'') cs))) \<noteq> []"
          by (auto simp: maximalSpan_def Let_def split: if_splits)
        then obtain y where "y \<in> set (dropWhile (\<lambda>c. c \<noteq> CHR ''{'') cs)" "y = CHR ''}''"
          by (auto simp: dropWhile_eq_Nil_conv)
        then have "CHR ''}'' \<in> set cs" using set_dropWhileD by fastforce
        with all show ?thesis by auto
      qed
      then show ?thesis using None span open_brace by simp
    qed
  qed
qed

text \<open>The span that the regular expression matches, characterised.\<close>

lemma maximalSpan_complete:
  assumes "CHR ''{'' \<notin> set pre" "CHR ''}'' \<notin> set post"
  shows "maximalSpan (pre @ CHR ''{'' # mid @ CHR ''}'' # post) = Some (CHR ''{'' # mid @ [CHR ''}''])"
proof -
  have 1: "dropWhile (\<lambda>c. c \<noteq> CHR ''{'') (pre @ CHR ''{'' # mid @ CHR ''}'' # post)
           = CHR ''{'' # mid @ CHR ''}'' # post"
    using assms(1) by (subst dropWhile_append2) auto
  have 2: "dropWhile (\<lambda>c. c \<noteq> CHR ''}'') (rev post @ CHR ''}'' # rev mid @ [CHR ''{''])
           = CHR ''}'' # rev mid @ [CHR ''{'']"
    using assms(2) by (subst dropWhile_append2) auto
  show ?thesis by (simp add: maximalSpan_def 1 2 del: dropWhile_append)
qed

lemma maximalSpan_sound:
  assumes "maximalSpan reply = Some m"
  shows "\<exists>pre mid post. reply = pre @ m @ post \<and> CHR ''{'' \<notin> set pre \<and> CHR ''}'' \<notin> set post
           \<and> m = CHR ''{'' # mid @ [CHR ''}'']"
proof -
  define r where "r = dropWhile (\<lambda>c. c \<noteq> CHR ''{'') reply"
  define pre where "pre = takeWhile (\<lambda>c. c \<noteq> CHR ''{'') reply"
  define d where "d = dropWhile (\<lambda>c. c \<noteq> CHR ''}'') (rev r)"
  define post where "post = rev (takeWhile (\<lambda>c. c \<noteq> CHR ''}'') (rev r))"
  from assms have m: "m = rev d" "d \<noteq> []"
    by (auto simp: maximalSpan_def Let_def r_def d_def split: if_splits)
  have reply: "reply = pre @ r" by (simp add: pre_def r_def)
  have "rev r = rev post @ d" by (simp add: post_def d_def)
  then have "rev (rev r) = rev (rev post @ d)" by simp
  then have r: "r = m @ post" using m by simp
  have pre: "CHR ''{'' \<notin> set pre" unfolding pre_def by (auto dest: set_takeWhileD)
  have post: "CHR ''}'' \<notin> set post" unfolding post_def by (auto dest: set_takeWhileD)
  have "hd d = CHR ''}''" using m(2) hd_dropWhile[of "\<lambda>c. c \<noteq> CHR ''}''" "rev r"]
    by (simp add: d_def)
  then have lastm: "last m = CHR ''}''" using m by (simp add: last_rev)
  have "r \<noteq> []" using r m by auto
  then have "hd r = CHR ''{''" using hd_dropWhile[of "\<lambda>c. c \<noteq> CHR ''{''" reply]
    by (simp add: r_def)
  then have hdm: "hd m = CHR ''{''" using r m by (cases m) auto
  have mne: "m \<noteq> []" using m by simp
  obtain m' where m': "m = CHR ''{'' # m'" using hdm mne by (cases m) auto
  with lastm have "m' \<noteq> []" by auto
  then obtain mid where "m' = mid @ [CHR ''}'']" using lastm m'
    by (metis append_butlast_last_id last_ConsR)
  with m' reply r pre post show ?thesis by auto
qed

subsection \<open>Base64 and splitting at the comma\<close>

lemma b64chars_length: "length b64chars = 64"
  by (simp add: b64chars_def)

lemma b64chars_distinct: "distinct b64chars"
  by (simp add: b64chars_def)

lemma b64char_in: "n < 64 \<Longrightarrow> b64char n \<in> set b64chars"
  by (simp add: b64char_def b64chars_length)

lemma b64char_not_pad: "n < 64 \<Longrightarrow> b64char n \<noteq> CHR ''=''"
proof -
  assume "n < 64"
  then have "b64char n \<in> set b64chars" by (rule b64char_in)
  moreover have "CHR ''='' \<notin> set b64chars" by (simp add: b64chars_def)
  ultimately show ?thesis by auto
qed

lemma b64char_not_comma: "n < 64 \<Longrightarrow> b64char n \<noteq> CHR '',''"
proof -
  assume "n < 64"
  then have "b64char n \<in> set b64chars" by (rule b64char_in)
  moreover have "CHR '','' \<notin> set b64chars" by (simp add: b64chars_def)
  ultimately show ?thesis by auto
qed

lemma b64index_b64char: 
  assumes "n < 64" shows "b64index (b64char n) = n"
proof -
  have "takeWhile (\<lambda>d. d \<noteq> b64chars ! n) b64chars = take n b64chars"
  proof (rule takeWhile_eq_take_P_nth)
    fix i assume "i < n" "i < length b64chars"
    then show "b64chars ! i \<noteq> b64chars ! n"
      using assms b64chars_distinct by (simp add: nth_eq_iff_index_eq b64chars_length)
  next
    show "\<not> b64chars ! n \<noteq> b64chars ! n" by simp
  qed
  then show ?thesis using assms by (simp add: b64index_def b64char_def b64chars_length)
qed

lemma unat_byte: "unat (a :: byte) < 256"
  using unsigned_less [of a] by simp

lemma sextets:
  fixes x y z :: nat
  assumes "x < 256" "y < 256" "z < 256"
  shows "x div 4 < 64" "(x mod 4) * 16 + y div 16 < 64" "(y mod 16) * 4 + z div 64 < 64"
    "z mod 64 < 64" "(x mod 4) * 16 < 64" "(y mod 16) * 4 < 64"
  using assms by simp_all

lemma octets:
  fixes x y z :: nat
  assumes "x < 256" "y < 256" "z < 256"
  shows "(x div 4) * 4 + ((x mod 4) * 16 + y div 16) div 16 = x"
    "(((x mod 4) * 16 + y div 16) mod 16) * 16 + ((y mod 16) * 4 + z div 64) div 4 = y"
    "(((y mod 16) * 4 + z div 64) mod 4) * 64 + z mod 64 = z"
    "(x div 4) * 4 + ((x mod 4) * 16) div 16 = x"
    "(((x mod 4) * 16 + y div 16) mod 16) * 16 + ((y mod 16) * 4) div 4 = y"
  using assms by simp_all

lemma base64_roundtrip: "base64Decode (base64 bs) = bs"
proof (induction bs rule: base64.induct)
  case 1
  show ?case by simp
next
  case (2 a)
  show ?case
    using sextets[OF unat_byte[of a] unat_byte[of a] unat_byte[of a]]
      octets[OF unat_byte[of a] unat_byte[of a] unat_byte[of a]]
    by (simp add: b64index_b64char)
next
  case (3 a b)
  show ?case
    using sextets[OF unat_byte[of a] unat_byte[of b] unat_byte[of b]]
      octets[OF unat_byte[of a] unat_byte[of b] unat_byte[of b]]
    by (simp add: b64index_b64char b64char_not_pad)
next
  case (4 a b c rest)
  show ?case
    using sextets[OF unat_byte[of a] unat_byte[of b] unat_byte[of c]]
      octets[OF unat_byte[of a] unat_byte[of b] unat_byte[of c]] "4.IH"
    by (simp add: b64index_b64char b64char_not_pad)
qed

lemma base64_no_comma: "CHR '','' \<notin> set (base64 bs)"
proof (induction bs rule: base64.induct)
  case 1
  show ?case by simp
next
  case (2 a)
  show ?case
    using sextets[OF unat_byte[of a] unat_byte[of a] unat_byte[of a]]
    by (simp add: b64char_not_comma[symmetric])
next
  case (3 a b)
  show ?case
    using sextets[OF unat_byte[of a] unat_byte[of b] unat_byte[of b]]
    by (simp add: b64char_not_comma[symmetric])
next
  case (4 a b c rest)
  show ?case
    using sextets[OF unat_byte[of a] unat_byte[of b] unat_byte[of c]] "4.IH"
    by (simp add: b64char_not_comma[symmetric])
qed

lemma splitOn_no_sep: "sep \<notin> set s \<Longrightarrow> splitOn sep s = [s]"
  by (induction s) auto

lemma splitOn_one_sep:
  "sep \<notin> set pre \<Longrightarrow> sep \<notin> set post \<Longrightarrow> splitOn sep (pre @ sep # post) = [pre, post]"
  by (induction pre) (auto simp: splitOn_no_sep)

subsection \<open>What the functions leave alone\<close>

lemma createdUrls_append: "createdUrls (xs @ ys) = createdUrls xs @ createdUrls ys"
  by (induction xs rule: createdUrls.induct) simp_all

lemma revokedUrls_append: "revokedUrls (xs @ ys) = revokedUrls xs @ revokedUrls ys"
  by (induction xs rule: revokedUrls.induct) simp_all


lemma modelCalls_append: "modelCalls (xs @ ys) = modelCalls xs + modelCalls ys"
  by (induction xs rule: modelCalls.induct) simp_all

lemmas setters =
  setIsLoading_def setError_def setPreviewUrl_def setFileType_def createObjectURL_def
  revokeObjectURL_def consoleError_def emit_def

lemma fileToGenerativePart_world:
  "fileToGenerativePart env file w = (out, w') \<Longrightarrow>
     w' = w \<or> (\<exists>e. w' = consoleError e w \<and> out = Throws FailedToProcessPdf)"
  by (auto simp: fileToGenerativePart_def split: if_splits sum.splits)

lemma extraction_frame:
  assumes "extraction env file w = (out, w')"
  shows "previewUrl w' = previewUrl w \<and> fileType w' = fileType w \<and> nextUrl w' = nextUrl w \<and>
         createdUrls (effects w') = createdUrls (effects w) \<and>
         revokedUrls (effects w') = revokedUrls (effects w) \<and>
         take (length (effects w)) (effects w') = effects w"
proof -
  obtain o1 w2 where f: "fileToGenerativePart env file (setError None (setIsLoading True w)) = (o1, w2)"
    by (cases "fileToGenerativePart env file (setError None (setIsLoading True w))")
  from fileToGenerativePart_world[OF f]
  have "w2 = setError None (setIsLoading True w) \<or>
        (\<exists>e. w2 = consoleError e (setError None (setIsLoading True w)) \<and> o1 = Throws FailedToProcessPdf)" .
  then show ?thesis
  proof
    assume "w2 = setError None (setIsLoading True w)"
    with assms f show ?thesis
      by (auto simp: extraction_def Let_def setters createdUrls_append revokedUrls_append
               split: outcome.splits genOutcome.splits sum.splits if_splits)
  next
    assume "\<exists>e. w2 = consoleError e (setError None (setIsLoading True w)) \<and> o1 = Throws FailedToProcessPdf"
    with assms f show ?thesis
      by (auto simp: extraction_def Let_def setters createdUrls_append revokedUrls_append)
  qed
qed

lemma processReceipt_frame:
  "previewUrl (stateOf (processReceipt env apiKey file w)) = previewUrl w \<and>
   fileType (stateOf (processReceipt env apiKey file w)) = fileType w \<and>
   nextUrl (stateOf (processReceipt env apiKey file w)) = nextUrl w \<and>
   createdUrls (effects (stateOf (processReceipt env apiKey file w))) = createdUrls (effects w) \<and>
   revokedUrls (effects (stateOf (processReceipt env apiKey file w))) = revokedUrls (effects w) \<and>
   take (length (effects w)) (effects (stateOf (processReceipt env apiKey file w))) = effects w"
proof (cases "truthy apiKey")
  case False
  then show ?thesis
    by (simp add: processReceipt_def setters createdUrls_append revokedUrls_append)
next
  case True
  obtain out w' where x: "extraction env file w = (out, w')" by (cases "extraction env file w")
  have len: "length (effects w) \<le> length (effects w')"
    using extraction_frame[OF x] by (metis length_take min.cobounded1 min.commute)
  show ?thesis using True x extraction_frame[OF x] len
    by (cases out) (simp_all add: processReceipt_def setters createdUrls_append revokedUrls_append)
qed

subsection \<open>Runs of the handlers\<close>

lemma processReceipt_effects:
  "\<exists>es. effects (stateOf (processReceipt env apiKey file w)) = effects w @ es \<and>
        createdUrls es = [] \<and> revokedUrls es = []"
proof -
  let ?w' = "stateOf (processReceipt env apiKey file w)"
  let ?es = "drop (length (effects w)) (effects ?w')"
  have fr: "take (length (effects w)) (effects ?w') = effects w"
    "createdUrls (effects ?w') = createdUrls (effects w)"
    "revokedUrls (effects ?w') = revokedUrls (effects w)"
    using processReceipt_frame [of env apiKey "file" w] by simp_all
  have eq: "effects ?w' = effects w @ ?es"
    using fr(1) append_take_drop_id [of "length (effects w)" "effects ?w'"] by simp
  have "createdUrls (effects w) @ createdUrls ?es = createdUrls (effects w)"
    using eq fr(2) createdUrls_append [of "effects w" ?es] by simp
  moreover have "revokedUrls (effects w) @ revokedUrls ?es = revokedUrls (effects w)"
    using eq fr(3) revokedUrls_append [of "effects w" ?es] by simp
  ultimately show ?thesis using eq by auto
qed

lemma drop_accepted:
  assumes "startsWith (ftype file) ''image/'' \<or> ftype file = ''application/pdf''"
  shows "\<exists>es. effects (handle env apiKey w (Drop (file # others))) =
            effects w @ [CreateObjectURL (nextUrl w), SetPreviewUrl (Some (nextUrl w)),
                         SetFileType (Some (ftype file))] @ es \<and>
            createdUrls es = [] \<and> revokedUrls es = []"
    and "previewUrl (handle env apiKey w (Drop (file # others))) = Some (nextUrl w)"
    and "fileType (handle env apiKey w (Drop (file # others))) = Some (ftype file)"
    and "nextUrl (handle env apiKey w (Drop (file # others))) = Suc (nextUrl w)"
proof -
  let ?w2 = "setFileType (Some (ftype file)) (setPreviewUrl (Some (nextUrl w))
               (w\<lparr>nextUrl := Suc (nextUrl w), effects := effects w @ [CreateObjectURL (nextUrl w)]\<rparr>))"
  have h: "handle env apiKey w (Drop (file # others)) = stateOf (processReceipt env apiKey file ?w2)"
    using assms
    by (cases "processReceipt env apiKey file ?w2") (auto simp: onDrop_def createObjectURL_def)
  from processReceipt_effects [of env apiKey "file" ?w2] obtain es where
    "effects (stateOf (processReceipt env apiKey file ?w2)) = effects ?w2 @ es"
    "createdUrls es = []" "revokedUrls es = []" by blast
  then show "\<exists>es. effects (handle env apiKey w (Drop (file # others))) =
            effects w @ [CreateObjectURL (nextUrl w), SetPreviewUrl (Some (nextUrl w)),
                         SetFileType (Some (ftype file))] @ es \<and>
            createdUrls es = [] \<and> revokedUrls es = []"
    using h by (simp add: setters)
  show "previewUrl (handle env apiKey w (Drop (file # others))) = Some (nextUrl w)"
    using h processReceipt_frame [of env apiKey "file" ?w2] by (simp add: setters)
  show "fileType (handle env apiKey w (Drop (file # others))) = Some (ftype file)"
    using h processReceipt_frame [of env apiKey "file" ?w2] by (simp add: setters)
  show "nextUrl (handle env apiKey w (Drop (file # others))) = Suc (nextUrl w)"
    using h processReceipt_frame [of env apiKey "file" ?w2] by (simp add: setters)
qed

lemma listedTypes_no_comma: "filter (\<lambda>t. CHR '','' \<in> set t) listedTypes = []"
  by (simp add: listedTypes_def)

subsection \<open>The declared type and the run-time object\<close>

lemma getProp_setProp:
  "getProp (setProp obj key v) k = (if k = key then Some v else getProp obj k)"
  by (induction obj key v rule: setProp.induct) (auto simp: getProp_def)

lemma asStrings_elements:
  "asStrings xs = Some ss \<Longrightarrow> map (elementString printNum) xs = ss \<and> length xs = length ss"
  by (induction xs arbitrary: ss rule: asStrings.induct)
     (auto simp: elementString_def split: option.splits)

lemma asStrings_take: "asStrings xs = Some ss \<Longrightarrow> asStrings (take n xs) = Some (take n ss)"
proof (induction xs arbitrary: ss n rule: asStrings.induct)
  case 1
  then show ?case by simp
next
  case (2 s xs)
  then show ?case by (cases n) (auto split: option.splits)
qed simp_all

lemma typedView_fields:
  "typedView obj = Some r \<Longrightarrow>
     optional asStringArray (getProp obj ''items'') = Some (items r) \<and>
     optional asString (getProp obj ''merchant'') = Some (merchant r)"
  by (auto simp: typedView_def split: option.splits)

lemma typedView_setDescription:
  "typedView obj = Some r \<Longrightarrow>
     typedView (setProp obj ''description'' (JString d)) = Some (r\<lparr>description := Some d\<rparr>)"
  by (auto simp: typedView_def getProp_setProp split: option.splits)

lemma optional_items:
  assumes "optional asStringArray v = Some its"
  shows "(its = None \<and> (v = None \<or> v = Some JNull)) \<or>
         (\<exists>xs ss. v = Some (JArray xs) \<and> asStrings xs = Some ss \<and> its = Some ss)"
proof (cases v)
  case None
  then show ?thesis using assms by simp
next
  case (Some x)
  then show ?thesis using assms by (cases x) (auto split: option.splits, metis)
qed

lemma optional_string:
  assumes "optional asString v = Some m"
  shows "(m = None \<and> (v = None \<or> v = Some JNull)) \<or>
         (\<exists>s. v = Some (JString s) \<and> m = Some s)"
proof (cases v)
  case None
  then show ?thesis using assms by simp
next
  case (Some x)
  then show ?thesis using assms by (cases x) (auto split: option.splits)
qed

text \<open>
  On a decoded object that has the declared type, lines 138-145 do not throw, and what
  they leave is, at the declared type, what \<open>deriveDescription\<close> gives.
\<close>

lemma assignDescription_typed:
  assumes "typedView obj = Some r"
  shows "\<exists>obj'. assignDescription printNum readNum obj = Inr obj' \<and>
               typedView obj' = Some (deriveDescription r)"
proof -
  from typedView_fields [OF assms]
  have i: "optional asStringArray (getProp obj ''items'') = Some (items r)"
    and m: "optional asString (getProp obj ''merchant'') = Some (merchant r)" by simp_all
  have fallback:
    "\<not> (truthyJs (getProp obj ''items'') \<and>
         lengthPositive printNum readNum (the (getProp obj ''items''))) \<Longrightarrow>
     \<not> (items r \<noteq> None \<and> length (the (items r)) > 0) \<Longrightarrow> ?thesis"
  proof -
    assume a: "\<not> (truthyJs (getProp obj ''items'') \<and>
         lengthPositive printNum readNum (the (getProp obj ''items'')))"
      and b: "\<not> (items r \<noteq> None \<and> length (the (items r)) > 0)"
    from optional_string [OF m] show ?thesis
    proof
      assume "merchant r = None \<and>
              (getProp obj ''merchant'' = None \<or> getProp obj ''merchant'' = Some JNull)"
      then show ?thesis using a b assms
        by (auto simp: assignDescription_def deriveDescription_def)
    next
      assume "\<exists>s. getProp obj ''merchant'' = Some (JString s) \<and> merchant r = Some s"
      then obtain s where s: "getProp obj ''merchant'' = Some (JString s)" "merchant r = Some s"
        by blast
      show ?thesis
      proof (cases "s = []")
        case True
        then show ?thesis using a b s assms
          by (auto simp: assignDescription_def deriveDescription_def)
      next
        case False
        then show ?thesis using a b s typedView_setDescription [OF assms, of s]
          by (auto simp: assignDescription_def deriveDescription_def)
      qed
    qed
  qed
  from optional_items [OF i] show ?thesis
  proof
    assume "items r = None \<and>
            (getProp obj ''items'' = None \<or> getProp obj ''items'' = Some JNull)"
    then show ?thesis by (intro fallback) auto
  next
    assume "\<exists>xs ss. getProp obj ''items'' = Some (JArray xs) \<and> asStrings xs = Some ss \<and>
                     items r = Some ss"
    then obtain xs ss where x: "getProp obj ''items'' = Some (JArray xs)"
      "asStrings xs = Some ss" "items r = Some ss" by blast
    have len: "length xs = length ss" using asStrings_elements [OF x(2)] by simp
    show ?thesis
    proof (cases "xs = []")
      case True
      then show ?thesis using x len by (intro fallback) auto
    next
      case False
      have "map (elementString printNum) (take 3 xs) = take 3 ss"
        using asStrings_elements [OF asStrings_take [OF x(2), of 3]] by simp
      then show ?thesis
        using False x len
          typedView_setDescription [OF assms,
            of "join '', '' (take 3 ss) @ (if length ss > 3 then ''...'' else [])"]
        by (auto simp: assignDescription_def deriveDescription_def)
    qed
  qed
qed



section \<open>The claims\<close>




text \<open>
  C2. Parsing a reply selects the span from the first opening brace of the text to the
  last closing brace of the text: the reply is \<open>pre @ span @ post\<close> with no opening brace
  in \<open>pre\<close>, no closing brace in \<open>post\<close>, and \<open>span\<close> starting with an opening and ending
  with a closing brace. Parsing fails with the no-JSON error when there is no such span,
  with the malformed-JSON error when the decoder rejects the span, and otherwise returns
  what the decoder returns for the span.
\<close>

theorem parseReply_maximal_span:
  "parseReply parse reply =
     (case maximalSpan reply of
        None \<Rightarrow> Inl NoJsonFound
      | Some span \<Rightarrow> (case parse span of None \<Rightarrow> Inl MalformedJson | Some r \<Rightarrow> Inr r)) \<and>
   (maximalSpan reply = Some span \<longleftrightarrow>
      (\<exists>pre mid post. reply = pre @ span @ post \<and> CHR ''{'' \<notin> set pre \<and>
          CHR ''}'' \<notin> set post \<and> span = CHR ''{'' # mid @ [CHR ''}'']))"
proof -
  have "parseReply parse reply =
     (case maximalSpan reply of
        None \<Rightarrow> Inl NoJsonFound
      | Some span \<Rightarrow> (case parse span of None \<Rightarrow> Inl MalformedJson | Some r \<Rightarrow> Inr r))"
    by (simp add: parseReply_def jsonMatch_eq_maximalSpan)
  moreover have "maximalSpan reply = Some span \<longleftrightarrow>
      (\<exists>pre mid post. reply = pre @ span @ post \<and> CHR ''{'' \<notin> set pre \<and>
          CHR ''}'' \<notin> set post \<and> span = CHR ''{'' # mid @ [CHR ''}''])"
  proof
    assume "maximalSpan reply = Some span"
    from maximalSpan_sound [OF this] show
      "\<exists>pre mid post. reply = pre @ span @ post \<and> CHR ''{'' \<notin> set pre \<and>
          CHR ''}'' \<notin> set post \<and> span = CHR ''{'' # mid @ [CHR ''}'']" .
  next
    assume "\<exists>pre mid post. reply = pre @ span @ post \<and> CHR ''{'' \<notin> set pre \<and>
          CHR ''}'' \<notin> set post \<and> span = CHR ''{'' # mid @ [CHR ''}'']"
    then obtain pre mid post where
      "reply = pre @ span @ post" "CHR ''{'' \<notin> set pre" "CHR ''}'' \<notin> set post"
      "span = CHR ''{'' # mid @ [CHR ''}'']" by blast
    then show "maximalSpan reply = Some span"
      using maximalSpan_complete [of pre post mid] by simp
  qed
  ultimately show ?thesis by blast
qed

theorem parseReply_maximal_span_witness:
  "parseReply (jsonParse mockEnv) mockReply = Inr mockObject \<and>
   maximalSpan mockReply = Some ''{milk, eggs, bread, soap}'' \<and>
   parseReply (jsonParse mockEnv) ''{a} and {b}'' = Inl MalformedJson \<and>
   maximalSpan ''{a} and {b}'' = Some ''{a} and {b}'' \<and>
   parseReply (jsonParse mockEnv) ''} no object {'' = Inl NoJsonFound"
  using parseReply_maximal_span [of "jsonParse mockEnv" mockReply "''{milk, eggs, bread, soap}''"]
    parseReply_maximal_span [of "jsonParse mockEnv" "''{a} and {b}''" "''{a} and {b}''"]
    parseReply_maximal_span [of "jsonParse mockEnv" "''} no object {''" "[]"]
  by (simp add: maximalSpan_def mockReply_def mockEnv_def)

text \<open>
  C3, the code at a history that breaks it. Two files are dropped one after the other and
  the preview is then removed. Two object URLs are created; the only one ever revoked
  is the second. The first is not released when it is replaced, and after the two drops
  two object URLs are live at once.
\<close>

theorem replaced_preview_never_revoked:
  "createdUrls (effects (session mockEnv (Some ''key'') [Drop [pngFile], Drop [gifFile], ClickRemove]))
     = [0, 1] \<and>
   revokedUrls (effects (session mockEnv (Some ''key'') [Drop [pngFile], Drop [gifFile], ClickRemove]))
     = [1] \<and>
   unreleased (session mockEnv (Some ''key'') [Drop [pngFile], Drop [gifFile]]) = [0, 1] \<and>
   unreleased (session mockEnv (Some ''key'') [Drop [pngFile], Drop [gifFile], ClickRemove]) = [0]"
  by (simp add: session_def onDrop_def processReceipt_def extraction_def
      fileToGenerativePart_def parseReply_def mockEnv_def mockReply_def Let_def
      clearPreview_def setters initial_def pngFile_def gifFile_def startsWith_def
      unreleased_def assignDescription_def getProp_def mockObject_def
      elementString_def)

text \<open>
  C4 (as amended). A dropped file is accepted into a preview exactly when its MIME type
  starts with \<open>image/\<close> or is \<open>application/pdf\<close>: then one object URL is created and
  \<^verbatim>\<open>previewUrl\<close> and \<^verbatim>\<open>fileType\<close> are set to it and to the file's type. For a file of any
  other type the handler only sets the unsupported-type error: no object URL is created,
  and \<^verbatim>\<open>previewUrl\<close> and \<^verbatim>\<open>fileType\<close> are unchanged.
\<close>

theorem onDrop_accepts_image_or_pdf:
  "(startsWith (ftype file) ''image/'' \<or> ftype file = ''application/pdf'' \<longrightarrow>
      previewUrl (handle env apiKey w (Drop (file # others))) = Some (nextUrl w) \<and>
      fileType (handle env apiKey w (Drop (file # others))) = Some (ftype file) \<and>
      createdUrls (effectsSince w (handle env apiKey w (Drop (file # others)))) = [nextUrl w]) \<and>
   (\<not> (startsWith (ftype file) ''image/'' \<or> ftype file = ''application/pdf'') \<longrightarrow>
      onDrop env apiKey (file # others) w = Returned (None, setError (Some msgUnsupported) w) \<and>
      error (handle env apiKey w (Drop (file # others))) = Some msgUnsupported \<and>
      previewUrl (handle env apiKey w (Drop (file # others))) = previewUrl w \<and>
      fileType (handle env apiKey w (Drop (file # others))) = fileType w \<and>
      effectsSince w (handle env apiKey w (Drop (file # others))) = [SetError (Some msgUnsupported)])"
proof (cases "startsWith (ftype file) ''image/'' \<or> ftype file = ''application/pdf''")
  case True
  from drop_accepted(1) [OF True, of env apiKey w others] obtain es where
    "effects (handle env apiKey w (Drop (file # others))) =
       effects w @ [CreateObjectURL (nextUrl w), SetPreviewUrl (Some (nextUrl w)),
                    SetFileType (Some (ftype file))] @ es" "createdUrls es = []" by blast
  then have "createdUrls (effectsSince w (handle env apiKey w (Drop (file # others)))) = [nextUrl w]"
    by (simp add: effectsSince_def)
  then show ?thesis using True drop_accepted(2,3) [OF True, of env apiKey w others] by simp
next
  case False
  then show ?thesis by (simp add: onDrop_def setError_def effectsSince_def)
qed

theorem onDrop_accepts_image_or_pdf_witness:
  "startsWith (ftype gifFile) ''image/'' \<and>
   previewUrl (handle mockEnv None initial (Drop [gifFile])) = Some 0 \<and>
   fileType (handle mockEnv None initial (Drop [gifFile])) = Some ''image/gif'' \<and>
   \<not> (startsWith (ftype untypedFile) ''image/'' \<or> ftype untypedFile = ''application/pdf'') \<and>
   error (handle mockEnv None initial (Drop [untypedFile])) = Some msgUnsupported \<and>
   previewUrl (handle mockEnv None initial (Drop [untypedFile])) = None \<and>
   fileType (handle mockEnv None initial (Drop [untypedFile])) = None"
  using onDrop_accepts_image_or_pdf [of gifFile mockEnv None initial "[]"]
    onDrop_accepts_image_or_pdf [of untypedFile mockEnv None initial "[]"]
  by (simp add: startsWith_def gifFile_def untypedFile_def initial_def del: handle.simps)

text \<open>
  C4 as stated fails: \<open>image/gif\<close> is not among the listed types, and a dropped GIF is
  accepted into a preview.
\<close>

theorem gif_is_previewed_counterexample:
  "ftype gifFile \<notin> set listedTypes \<and>
   previewUrl (session mockEnv None [Drop [gifFile]]) = Some 0 \<and>
   fileType (session mockEnv None [Drop [gifFile]]) = Some ''image/gif'' \<and>
   error (session mockEnv None [Drop [gifFile]]) \<noteq> Some msgUnsupported"
  by (simp add: session_def onDrop_def processReceipt_def setters initial_def gifFile_def
      startsWith_def listedTypes_def msgApiKey_def msgUnsupported_def)

text \<open>
  C5. Without an API key (absent, or the empty string) \<^verbatim>\<open>processReceipt\<close> returns after two
  effects: it sets the error to the API-key message and sets \<^verbatim>\<open>isLoading\<close> to false. It
  never sets \<^verbatim>\<open>isLoading\<close> to true and never calls the model.
\<close>

theorem processReceipt_without_api_key:
  "\<not> truthy apiKey \<Longrightarrow>
     processReceipt env apiKey file w =
       Returned (w\<lparr>isLoading := False, error := Some msgApiKey,
                  effects := effects w @ [SetError (Some msgApiKey), SetIsLoading False]\<rparr>) \<and>
     effectsSince w (stateOf (processReceipt env apiKey file w)) =
       [SetError (Some msgApiKey), SetIsLoading False] \<and>
     SetIsLoading True \<notin> set (effectsSince w (stateOf (processReceipt env apiKey file w))) \<and>
     modelCalls (effectsSince w (stateOf (processReceipt env apiKey file w))) = 0"
  by (simp add: processReceipt_def setters effectsSince_def)

theorem processReceipt_without_api_key_witness:
  "\<not> truthy None \<and>
   processReceipt mockEnv None pngFile initial =
     Returned \<lparr>isLoading = False, error = Some msgApiKey, previewUrl = None, fileType = None,
               nextUrl = 0, effects = [SetError (Some msgApiKey), SetIsLoading False]\<rparr> \<and>
   modelCalls (effectsSince initial (stateOf (processReceipt mockEnv None pngFile initial))) = 0"
  using processReceipt_without_api_key [of None mockEnv pngFile initial]
  by (simp add: initial_def effectsSince_def)

text \<open>
  C6. The clear operation is the remove button, which the widget shows, and so lets the
  user press, in every state in which it is not loading and has a preview (lines
  213-230). From every such state, pressing it revokes the previewed object URL exactly
  once and leaves the session idle: not loading, with \<^verbatim>\<open>previewUrl\<close>, \<^verbatim>\<open>fileType\<close> and
  \<^verbatim>\<open>error\<close> all cleared.
\<close>

theorem clearPreview_releases_once:
  "\<not> isLoading w \<and> previewUrl w = Some url \<Longrightarrow>
     handle env apiKey w ClickRemove =
       w\<lparr>error := None, previewUrl := None, fileType := None,
          effects := effects w @
            [RevokeObjectURL url, SetPreviewUrl None, SetFileType None, SetError None]\<rparr> \<and>
     revokedUrls (effectsSince w (handle env apiKey w ClickRemove)) = [url] \<and>
     isLoading (handle env apiKey w ClickRemove) = False \<and>
     previewUrl (handle env apiKey w ClickRemove) = None \<and>
     fileType (handle env apiKey w ClickRemove) = None \<and>
     error (handle env apiKey w ClickRemove) = None"
  by (simp add: clearPreview_def setters effectsSince_def)

theorem clearPreview_releases_once_witness:
  "\<not> isLoading (session mockEnv None [Drop [pngFile]]) \<and>
   previewUrl (session mockEnv None [Drop [pngFile]]) = Some 0 \<and>
   error (session mockEnv None [Drop [pngFile]]) = Some msgApiKey \<and>
   revokedUrls (effectsSince (session mockEnv None [Drop [pngFile]])
                  (session mockEnv None [Drop [pngFile], ClickRemove])) = [0] \<and>
   isLoading (session mockEnv None [Drop [pngFile], ClickRemove]) = False \<and>
   previewUrl (session mockEnv None [Drop [pngFile], ClickRemove]) = None \<and>
   fileType (session mockEnv None [Drop [pngFile], ClickRemove]) = None \<and>
   error (session mockEnv None [Drop [pngFile], ClickRemove]) = None"
proof -
  have s: "session mockEnv None [Drop [pngFile]] =
           \<lparr>isLoading = False, error = Some msgApiKey, previewUrl = Some 0,
            fileType = Some ''image/png'', nextUrl = 1,
            effects = [CreateObjectURL 0, SetPreviewUrl (Some 0), SetFileType (Some ''image/png''),
                       SetError (Some msgApiKey), SetIsLoading False]\<rparr>"
    by (simp add: session_def onDrop_def processReceipt_def setters initial_def pngFile_def
        startsWith_def)
  have c: "session mockEnv None [Drop [pngFile], ClickRemove] =
           handle mockEnv None (session mockEnv None [Drop [pngFile]]) ClickRemove"
    by (simp add: session_def)
  have h: "\<not> isLoading (session mockEnv None [Drop [pngFile]]) \<and>
           previewUrl (session mockEnv None [Drop [pngFile]]) = Some 0"
    by (simp add: s)
  from clearPreview_releases_once [OF h, of mockEnv None] h s c show ?thesis
    by (simp add: effectsSince_def del: handle.simps)
qed

text \<open>
  C7. For a file that is not a PDF, whose bytes the platform can read and whose MIME type
  contains no comma (no media type does: type and subtype are tokens, and each type of
  the accept list is one), encoding returns a payload whose \<^verbatim>\<open>mimeType\<close> is the file's
  declared type and whose \<^verbatim>\<open>data\<close> is the Base64 text of the file's bytes, which decodes
  back to exactly these bytes.
\<close>

theorem image_encoding_roundtrip:
  assumes "ftype file \<noteq> ''application/pdf''" and "CHR '','' \<notin> set (ftype file)"
    and "readable file"
  shows "\<exists>d. fileToGenerativePart env file w =
              (Returns \<lparr>data = Some d, mimeType = ftype file\<rparr>, w) \<and>
            d = base64 (content file) \<and> base64Decode d = content file"
proof -
  let ?t = "if ftype file = [] then ''application/octet-stream'' else ftype file"
  have "CHR '','' \<notin> set (''data:'' @ ?t @ '';base64'')"
    using assms(2) by simp
  then have "splitOn CHR '','' ((''data:'' @ ?t @ '';base64'') @ CHR '','' # base64 (content file))
             = [''data:'' @ ?t @ '';base64'', base64 (content file)]"
    using base64_no_comma by (rule splitOn_one_sep)
  moreover have "readAsDataURL file =
                 (''data:'' @ ?t @ '';base64'') @ CHR '','' # base64 (content file)"
    by (simp add: readAsDataURL_def)
  ultimately have "at (splitOn CHR '','' (readAsDataURL file)) 1 = Some (base64 (content file))"
    by (simp add: at_def)
  then show ?thesis
    using assms(1,3) by (simp add: fileToGenerativePart_def base64_roundtrip)
qed

theorem image_encoding_roundtrip_witness:
  "ftype pngFile \<noteq> ''application/pdf'' \<and> CHR '','' \<notin> set (ftype pngFile) \<and> readable pngFile \<and>
   fileToGenerativePart mockEnv pngFile initial =
     (Returns \<lparr>data = Some ''iVBORw=='', mimeType = ''image/png''\<rparr>, initial) \<and>
   base64Decode ''iVBORw=='' = content pngFile"
proof -
  have h: "ftype pngFile \<noteq> ''application/pdf''" "CHR '','' \<notin> set (ftype pngFile)"
    "readable pngFile"
    by (simp_all add: pngFile_def)
  have b: "base64 (content pngFile) = ''iVBORw==''"
    by (simp add: pngFile_def b64char_def b64chars_def)
  from image_encoding_roundtrip [OF h, of mockEnv initial] b h show ?thesis
    by (auto simp: pngFile_def)
qed

text \<open>
  C8 (as amended). For a readable file of declared type \<open>application/pdf\<close> that pdf-lib
  loads: when the document has no pages, the error \<^verbatim>\<open>"PDF has no pages"\<close> is raised, logged
  and replaced, so that encoding fails with the same \<^verbatim>\<open>"Failed to process PDF file"\<close> error
  as for any other failure; when it has pages and serialises, encoding returns the Base64
  text of the serialised document (the data-URI header stripped, nothing rasterised),
  with \<^verbatim>\<open>mimeType\<close> \<open>application/pdf\<close>.
\<close>

theorem pdf_encoding:
  assumes "ftype file = ''application/pdf''" and "readable file"
    and "pdfLoad env (content file) = Some doc"
  shows "(pageCount doc = 0 \<longrightarrow>
            fileToGenerativePart env file w =
              (Throws FailedToProcessPdf, consoleError PdfHasNoPages w)) \<and>
         (pageCount doc \<noteq> 0 \<and> saved doc = Some bytes \<longrightarrow>
            fileToGenerativePart env file w =
              (Returns \<lparr>data = Some (base64 bytes), mimeType = ''application/pdf''\<rparr>, w) \<and>
            base64Decode (base64 bytes) = bytes)"
proof -
  have "splitOn CHR '','' (''data:application/pdf;base64'' @ CHR '','' # base64 bytes)
        = [''data:application/pdf;base64'', base64 bytes]"
    using base64_no_comma by (intro splitOn_one_sep) simp_all
  then have "at (splitOn CHR '','' (''data:application/pdf;base64,'' @ base64 bytes)) 1
             = Some (base64 bytes)"
    by (simp add: at_def)
  then show ?thesis
    using assms by (simp add: fileToGenerativePart_def pdfToBase64_def base64_roundtrip)
qed

theorem pdf_encoding_witness:
  "fileToGenerativePart mockEnv emptyPdf initial =
     (Throws FailedToProcessPdf, consoleError PdfHasNoPages initial) \<and>
   fileToGenerativePart mockEnv (emptyPdf\<lparr>content := [1, 2, 3]\<rparr>) initial =
     (Returns \<lparr>data = Some ''AQID'', mimeType = ''application/pdf''\<rparr>, initial) \<and>
   base64Decode ''AQID'' = [1, 2, 3]"
proof -
  have b: "base64 [1, 2, 3] = ''AQID''"
    by (simp add: b64char_def b64chars_def)
  have 1: "pdfLoad mockEnv (content emptyPdf) = Some \<lparr>pageCount = 0, saved = Some []\<rparr>"
    by (simp add: mockEnv_def emptyPdf_def)
  have 2: "pdfLoad mockEnv (content (emptyPdf\<lparr>content := [1, 2, 3]\<rparr>))
           = Some \<lparr>pageCount = 3, saved = Some [1, 2, 3]\<rparr>"
    by (simp add: mockEnv_def emptyPdf_def)
  have t: "ftype emptyPdf = ''application/pdf''" "readable emptyPdf"
    "ftype (emptyPdf\<lparr>content := [1, 2, 3]\<rparr>) = ''application/pdf''"
    "readable (emptyPdf\<lparr>content := [1, 2, 3]\<rparr>)"
    by (simp_all add: emptyPdf_def)
  from pdf_encoding [OF t(1,2) 1, of initial "[]"]
    pdf_encoding [OF t(3,4) 2, of initial "[1, 2, 3]"] b
  show ?thesis by simp
qed

text \<open>
  C8 as stated fails: for a PDF without pages the error that encoding fails with is the
  general \<^verbatim>\<open>"Failed to process PDF file"\<close>, not the empty-document error, which is only
  logged.
\<close>

theorem empty_pdf_error_counterexample:
  "pdfLoad mockEnv (content emptyPdf) = Some \<lparr>pageCount = 0, saved = Some []\<rparr> \<and>
   fst (fileToGenerativePart mockEnv emptyPdf initial) = Throws FailedToProcessPdf \<and>
   fst (fileToGenerativePart mockEnv emptyPdf initial) \<noteq> Throws PdfHasNoPages"
  by (simp add: fileToGenerativePart_def pdfToBase64_def mockEnv_def emptyPdf_def)



text \<open>
  C10. When a run of \<^verbatim>\<open>processReceipt\<close> returns, whichever way, \<^verbatim>\<open>isLoading\<close> is false.
\<close>

theorem processReceipt_returns_not_loading:
  "processReceipt env apiKey file w = Returned w' \<Longrightarrow> isLoading w' = False"
  by (auto simp: processReceipt_def setters split: if_splits prod.splits outcome.splits)

theorem processReceipt_returns_not_loading_witness:
  "(\<exists>w'. processReceipt mockEnv (Some ''key'') pngFile (setIsLoading True initial) = Returned w') \<and>
   isLoading (stateOf (processReceipt mockEnv (Some ''key'') pngFile (setIsLoading True initial)))
     = False"
proof -
  obtain w' where r:
    "processReceipt mockEnv (Some ''key'') pngFile (setIsLoading True initial) = Returned w'"
    by (simp add: processReceipt_def extraction_def fileToGenerativePart_def pngFile_def
        mockEnv_def parseReply_def mockReply_def Let_def assignDescription_def getProp_def
        mockObject_def elementString_def)
  from processReceipt_returns_not_loading [OF r] r show ?thesis by simp
qed

end
